theory Spec2Isabelle
  imports Main "HOL-Library.Sublist"
begin

section \<open>The setup scripts as data\<close>

text \<open>
  The repository's programs are two scripts for the database shell:
  \<^verbatim>\<open>setupMongoDB.js\<close> and a shorter variant of it. Each is a flat sequence of three
  kinds of statement, \<^verbatim>\<open>use <database>\<close>, \<^verbatim>\<open>db.dropUser(<name>)\<close> and
  \<^verbatim>\<open>db.createUser(<document> [, <write concern>])\<close>. The argument documents are
  object literals; they are modelled as records with the field names of the source.

  Both files end with a separator token that is no text of the shell's language. In
  \<^verbatim>\<open>setupMongoDB.js\<close> it stands on a line of its own (line 41), after the last
  statement and an empty line, and is left out. In the shorter script it stands on line
  22 behind the closing bracket of the last \<^verbatim>\<open>db.createUser\<close> call, on the same line:
  as the file is, that call is text the shell cannot read as a statement. Such text is
  the statement \<open>Malformed\<close>.
\<close>

text \<open>A role grant written as an object: \<^verbatim>\<open>{ role: "clusterAdmin", db: "admin" }\<close>.\<close>

record role_doc =
  role :: string
  db :: string

text \<open>
  An element of the \<^verbatim>\<open>roles\<close> array is either a bare string (\<^verbatim>\<open>"readWrite"\<close>) or a
  role object.
\<close>

datatype role_entry = RoleName string | RoleDoc role_doc

text \<open>The first argument of \<^verbatim>\<open>db.createUser\<close>.\<close>

record user_doc =
  user :: string
  pwd :: string
  roles :: "role_entry list"

text \<open>The optional second argument: \<^verbatim>\<open>{ w: "majority" , wtimeout: 5000 }\<close>.\<close>

record write_concern =
  w :: string
  wtimeout :: int

datatype stmt =
    Use string
  | DropUser string
  | CreateUser user_doc "write_concern option"
  | Malformed

text \<open>The three role arrays that occur in the scripts.\<close>

definition cluster_roles :: "role_entry list" where
  "cluster_roles =
     [ RoleDoc \<lparr>role = ''clusterAdmin'', db = ''admin''\<rparr>,
       RoleDoc \<lparr>role = ''readAnyDatabase'', db = ''admin''\<rparr>,
       RoleName ''readWrite'' ]"

definition admin_roles :: "role_entry list" where
  "admin_roles =
     [ RoleDoc \<lparr>role = ''readWrite'', db = ''config''\<rparr>,
       RoleName ''clusterAdmin'' ]"

definition majority :: write_concern where
  "majority = \<lparr>w = ''majority'', wtimeout = 5000\<rparr>"

text \<open>\<^verbatim>\<open>src/setupMongoDB.js\<close>, statement by statement.\<close>

definition setupMongoDB :: "stmt list" where
  "setupMongoDB =
     [ Use ''testRun'',
       DropUser ''root'',
       CreateUser \<lparr>user = ''root'', pwd = ''balla1234$'', roles = cluster_roles\<rparr>
         (Some majority),
       Use ''test'',
       DropUser ''root'',
       CreateUser \<lparr>user = ''root'', pwd = ''root'', roles = cluster_roles\<rparr>
         (Some majority),
       Use ''admin'',
       DropUser ''root'',
       CreateUser \<lparr>user = ''root'', pwd = ''balla1234$'', roles = admin_roles\<rparr>
         None,
       Use ''vcsshark'',
       DropUser ''root'',
       CreateUser \<lparr>user = ''root'', pwd = ''root'', roles = cluster_roles\<rparr>
         (Some majority) ]"

text \<open>
  \<^verbatim>\<open>src/unnamed/part_000\<close>, the shorter script, as the file is. Lines 12 to 22 are the
  text of \<^verbatim>\<open>db.createUser\<close> with the document of the account root of admin
  (password "balla1234$", the roles \<open>admin_roles\<close>, no write concern), the closing
  bracket on line 22 being followed by the separator token.
\<close>

definition part_000 :: "stmt list" where
  "part_000 =
     [ Use ''testRun'',
       DropUser ''root'',
       CreateUser \<lparr>user = ''root'', pwd = ''balla1234$'', roles = cluster_roles\<rparr>
         (Some majority),
       Use ''admin'',
       DropUser ''root'',
       Malformed ]"


section \<open>Reading a script without running it\<close>

text \<open>The databases a script switches to, in source order.\<close>

fun uses :: "stmt list \<Rightarrow> string list" where
  "uses [] = []"
| "uses (Use d # cs) = d # uses cs"
| "uses (DropUser n # cs) = uses cs"
| "uses (CreateUser doc wc # cs) = uses cs"
| "uses (Malformed # cs) = uses cs"

text \<open>
  The account-provisioning entries of a script: every \<^verbatim>\<open>createUser\<close> call with the
  database that the nearest preceding \<^verbatim>\<open>use\<close> selects (\<open>cur\<close> before the first one).
\<close>

fun provisions :: "string \<Rightarrow> stmt list \<Rightarrow> (string \<times> user_doc \<times> write_concern option) list" where
  "provisions cur [] = []"
| "provisions cur (Use d # cs) = provisions d cs"
| "provisions cur (DropUser n # cs) = provisions cur cs"
| "provisions cur (CreateUser doc wc # cs) = (cur, doc, wc) # provisions cur cs"
| "provisions cur (Malformed # cs) = provisions cur cs"

text \<open>The write-concern objects that a script passes.\<close>

fun write_concerns :: "stmt list \<Rightarrow> write_concern list" where
  "write_concerns [] = []"
| "write_concerns (CreateUser doc (Some c) # cs) = c # write_concerns cs"
| "write_concerns (x # cs) = write_concerns cs"


section \<open>The shell and the server\<close>

text \<open>
  An account as the server stores it: every grant carries its database, a bare role
  name being a role of the database the account is created in.
\<close>

record account =
  name :: string
  password :: string
  grants :: "role_doc list"

text \<open>
  The session: the shell's variable \<^verbatim>\<open>db\<close> (the active database) and the accounts
  of every database of the server, in the order of their creation.
\<close>

record session =
  active :: string
  users :: "string \<Rightarrow> account list"

text \<open>A server without accounts; the shell starts on the database \<^verbatim>\<open>test\<close>.\<close>

definition fresh :: session where
  "fresh = \<lparr>active = ''test'', users = (\<lambda>d. [])\<rparr>"

fun resolve :: "string \<Rightarrow> role_entry \<Rightarrow> role_doc" where
  "resolve cur (RoleName r) = \<lparr>role = r, db = cur\<rparr>"
| "resolve cur (RoleDoc g) = g"

definition new_account :: "string \<Rightarrow> user_doc \<Rightarrow> account" where
  "new_account cur doc =
     \<lparr>name = user doc, password = pwd doc, grants = map (resolve cur) (roles doc)\<rparr>"

definition has_user :: "session \<Rightarrow> string \<Rightarrow> string \<Rightarrow> bool" where
  "has_user s d n = (n \<in> set (map name (users s d)))"

datatype error = UserExists string string | Refused | SyntaxError

text \<open>What the shell prints for a statement.\<close>

datatype reply = Switched string | Dropped bool | Added string | Failed error

text \<open>
  Modelled from the spec: the commands \<^verbatim>\<open>use\<close>, \<^verbatim>\<open>db.dropUser\<close> and
  \<^verbatim>\<open>db.createUser\<close> are the database shell's, whose code is not in the repository;
  the scripts only call them. \<^verbatim>\<open>use\<close> selects the active database.
\<close>

definition use :: "string \<Rightarrow> session \<Rightarrow> session" where
  "use d s = s\<lparr>active := d\<rparr>"

text \<open>
  Modelled from the spec: \<^verbatim>\<open>db.dropUser\<close> removes the account of that name from the
  active database and answers whether there was one; an absent account is no error.
\<close>

definition dropUser :: "string \<Rightarrow> session \<Rightarrow> bool \<times> session" where
  "dropUser n s =
     (has_user s (active s) n,
      s\<lparr>users := (users s)(active s := filter (\<lambda>a. name a \<noteq> n) (users s (active s)))\<rparr>)"

text \<open>
  Modelled from the spec: \<^verbatim>\<open>db.createUser\<close> adds the account to the active database.
  The write concern asks for acknowledgement by replicas and leaves the account as it is.
  That the server keeps one account per name and database and refuses a second one is
  the documented behaviour of the command; the spec is silent on it. In the scripts
  every \<^verbatim>\<open>createUser\<close> follows a \<^verbatim>\<open>dropUser\<close> of the same name, so the
  refusal never happens there.
\<close>

definition createUser :: "user_doc \<Rightarrow> write_concern option \<Rightarrow> session \<Rightarrow> error + session" where
  "createUser doc c s =
     (if has_user s (active s) (user doc) then Inl (UserExists (user doc) (active s))
      else Inr (s\<lparr>users := (users s)(active s := users s (active s) @ [new_account (active s) doc])\<rparr>))"

fun exec_stmt :: "stmt \<Rightarrow> session \<Rightarrow> error + (reply \<times> session)" where
  "exec_stmt (Use d) s = Inr (Switched d, use d s)"
| "exec_stmt (DropUser n) s = (case dropUser n s of (b, s') \<Rightarrow> Inr (Dropped b, s'))"
| "exec_stmt (CreateUser doc c) s =
     (case createUser doc c s of
        Inl e \<Rightarrow> Inl e
      | Inr s' \<Rightarrow> Inr (Added (user doc), s'))"
| "exec_stmt Malformed s = Inl SyntaxError"

text \<open>
  Modelled from the spec: a script runs statement by statement in source order, and the
  first statement that fails ends the run; the statements after it are not executed and
  nothing is retried or undone. Failures that come from outside the script (privilege,
  connectivity, a role the server rejects) are the parameter \<open>refused\<close>, which says for
  each position of the script whether the statement there is refused. Text that is no
  statement fails by itself, with a syntax error, and changes nothing.
\<close>

fun run_from :: "(nat \<Rightarrow> bool) \<Rightarrow> nat \<Rightarrow> stmt list \<Rightarrow> session \<Rightarrow> reply list \<times> session" where
  "run_from refused i [] s = ([], s)"
| "run_from refused i (c # cs) s =
     (if refused i then ([Failed Refused], s)
      else case exec_stmt c s of
             Inl e \<Rightarrow> ([Failed e], s)
           | Inr (r, s') \<Rightarrow>
               (case run_from refused (Suc i) cs s' of (rs, s'') \<Rightarrow> (r # rs, s'')))"

definition run :: "(nat \<Rightarrow> bool) \<Rightarrow> stmt list \<Rightarrow> session \<Rightarrow> reply list \<times> session" where
  "run refused prog s = run_from refused 0 prog s"

text \<open>No statement is refused.\<close>

definition granted :: "nat \<Rightarrow> bool" where
  "granted i = False"

text \<open>Exactly the statement at position \<open>k\<close> is refused.\<close>

definition refuse_at :: "nat \<Rightarrow> nat \<Rightarrow> bool" where
  "refuse_at k i = (i = k)"

text \<open>The databases a run switched to, and the number of statements it completed.\<close>

fun switches :: "reply list \<Rightarrow> string list" where
  "switches [] = []"
| "switches (Switched d # rs) = d # switches rs"
| "switches (r # rs) = switches rs"

fun completed :: "reply list \<Rightarrow> nat" where
  "completed [] = 0"
| "completed (Failed e # rs) = completed rs"
| "completed (r # rs) = Suc (completed rs)"


text \<open>The reply that a completed statement gets.\<close>

fun answers :: "stmt \<Rightarrow> reply \<Rightarrow> bool" where
  "answers (Use d) (Switched e) = (e = d)"
| "answers (DropUser n) (Dropped b) = True"
| "answers (CreateUser doc c) (Added n) = (n = user doc)"
| "answers c r = False"

text \<open>
  Both scripts are made of blocks \<^verbatim>\<open>use d\<close>, \<^verbatim>\<open>db.dropUser(n)\<close>,
  \<^verbatim>\<open>db.createUser(doc, c)\<close>. \<open>dropped d n\<close> is the session after the first two
  statements of a block, \<open>provision d doc\<close> the session after all three (with the
  account of the document dropped before).
\<close>

definition dropped :: "string \<Rightarrow> string \<Rightarrow> session \<Rightarrow> session" where
  "dropped d n s =
     s\<lparr>active := d, users := (users s)(d := filter (\<lambda>a. name a \<noteq> n) (users s d))\<rparr>"

definition provision :: "string \<Rightarrow> user_doc \<Rightarrow> session \<Rightarrow> session" where
  "provision d doc s =
     s\<lparr>active := d,
       users := (users s)(d := filter (\<lambda>a. name a \<noteq> user doc) (users s d) @ [new_account d doc])\<rparr>"


section \<open>Helper facts\<close>

lemmas script_defs =
  setupMongoDB_def part_000_def cluster_roles_def admin_roles_def majority_def

lemmas shell_defs =
  run_def granted_def refuse_at_def has_user_def new_account_def fresh_def
  use_def dropUser_def createUser_def

subsection \<open>One block\<close>

lemma dropUser_use: "dropUser n (use d s) = (has_user s d n, dropped d n s)"
  by (simp add: dropUser_def use_def has_user_def dropped_def)

lemma createUser_dropped: "createUser doc c (dropped d (user doc) s) = Inr (provision d doc s)"
  by (auto simp: createUser_def has_user_def provision_def dropped_def)

lemma has_user_dropped:
  "has_user (dropped d n s) e m = (has_user s e m \<and> (e = d \<longrightarrow> m \<noteq> n))"
  by (auto simp: has_user_def dropped_def)

lemma users_provision:
  "users (provision d doc s) e =
     (if e = d then filter (\<lambda>a. name a \<noteq> user doc) (users s d) @ [new_account d doc]
      else users s e)"
  by (simp add: provision_def)

lemma active_provision: "active (provision d doc s) = d"
  by (simp add: provision_def)

lemma more_provision: "session.more (provision d doc s) = session.more s"
  by (simp add: provision_def)

lemma name_new_account: "name (new_account d doc) = user doc"
  by (simp add: new_account_def)

lemma has_user_provision:
  "has_user (provision d doc s) e n =
     (if e = d then n = user doc \<or> has_user s d n else has_user s e n)"
  by (auto simp: has_user_def users_provision name_new_account)

lemma run_from_block:
  assumes "\<not> refused i" "\<not> refused (Suc i)" "\<not> refused (Suc (Suc i))"
  shows "run_from refused i (Use d # DropUser (user doc) # CreateUser doc c # cs) s =
     (case run_from refused (Suc (Suc (Suc i))) cs (provision d doc s) of
        (rs, s') \<Rightarrow> (Switched d # Dropped (has_user s d (user doc)) # Added (user doc) # rs, s'))"
  using assms by (simp add: dropUser_use createUser_dropped split: prod.splits)

lemma run_from_stop:
  assumes "\<not> refused i" "\<not> refused (Suc i)" "refused (Suc (Suc i))"
  shows "run_from refused i (Use d # DropUser n # c # cs) s =
     ([Switched d, Dropped (has_user s d n), Failed Refused], dropped d n s)"
  using assms by (simp add: dropUser_use)



subsection \<open>Whole scripts, nothing refused\<close>

lemma not_granted: "\<not> granted i"
  by (simp add: granted_def)

lemma user_root: "user \<lparr>user = ''root'', pwd = p, roles = r\<rparr> = ''root''"
  by simp

lemmas granted_block =
  run_from_block [OF not_granted not_granted not_granted,
    where doc = "\<lparr>user = ''root'', pwd = p, roles = r\<rparr>" for p r, simplified user_root]

lemma run_setup:
  "run granted setupMongoDB s =
     ([Switched ''testRun'', Dropped (has_user s ''testRun'' ''root''), Added ''root'',
       Switched ''test'', Dropped (has_user s ''test'' ''root''), Added ''root'',
       Switched ''admin'', Dropped (has_user s ''admin'' ''root''), Added ''root'',
       Switched ''vcsshark'', Dropped (has_user s ''vcsshark'' ''root''), Added ''root''],
      provision ''vcsshark'' \<lparr>user = ''root'', pwd = ''root'', roles = cluster_roles\<rparr>
       (provision ''admin'' \<lparr>user = ''root'', pwd = ''balla1234$'', roles = admin_roles\<rparr>
         (provision ''test'' \<lparr>user = ''root'', pwd = ''root'', roles = cluster_roles\<rparr>
           (provision ''testRun'' \<lparr>user = ''root'', pwd = ''balla1234$'', roles = cluster_roles\<rparr> s))))"
  unfolding run_def setupMongoDB_def
  by (simp add: granted_block has_user_provision del: run_from.simps(2))



subsection \<open>Runs that end early\<close>

lemma exec_stmt_reply:
  assumes "exec_stmt c s = Inr (r, s1)"
  shows "completed (r # rs) = Suc (completed rs)" and "switches (r # rs) = uses [c] @ switches rs"
  using assms by (cases c; auto split: prod.splits sum.splits)+

lemma switches_run_from:
  "switches (fst (run_from refused i prog s)) =
     uses (take (completed (fst (run_from refused i prog s))) prog)"
proof (induction prog arbitrary: i s)
  case Nil
  show ?case by simp
next
  case (Cons c cs)
  show ?case
  proof (cases "refused i")
    case True
    then show ?thesis by simp
  next
    case False
    show ?thesis
    proof (cases "exec_stmt c s")
      case (Inl e)
      with False show ?thesis by simp
    next
      case (Inr p)
      obtain r s1 where p: "p = (r, s1)" by (cases p)
      obtain rs s2 where rest: "run_from refused (Suc i) cs s1 = (rs, s2)"
        by (cases "run_from refused (Suc i) cs s1")
      have ih: "switches rs = uses (take (completed rs) cs)"
        using Cons.IH [of "Suc i" s1] rest by simp
      have res: "fst (run_from refused i (c # cs) s) = r # rs"
        using False Inr p rest by simp
      have cnt: "completed (r # rs) = Suc (completed rs)"
        and sw: "switches (r # rs) = uses [c] @ switches rs"
        using Inr p exec_stmt_reply [of c s r s1 rs] by simp_all
      have "uses (take (Suc (completed rs)) (c # cs)) = uses [c] @ uses (take (completed rs) cs)"
        by (cases c) simp_all
      then show ?thesis
        unfolding res cnt sw ih by simp
    qed
  qed
qed

lemma completed_le_refusal:
  "refused (i + k) \<Longrightarrow> completed (fst (run_from refused i prog s)) \<le> k"
proof (induction prog arbitrary: i k s)
  case Nil
  show ?case by simp
next
  case (Cons c cs)
  show ?case
  proof (cases "refused i")
    case True
    then show ?thesis by simp
  next
    case False
    show ?thesis
    proof (cases "exec_stmt c s")
      case (Inl e)
      with False show ?thesis by simp
    next
      case (Inr p)
      obtain r s1 where p: "p = (r, s1)" by (cases p)
      obtain rs s2 where rest: "run_from refused (Suc i) cs s1 = (rs, s2)"
        by (cases "run_from refused (Suc i) cs s1")
      from False Cons.prems obtain k' where k: "k = Suc k'"
        by (cases k) auto
      with Cons.prems have "refused (Suc i + k')" by simp
      then have "completed rs \<le> k'"
        using Cons.IH [of "Suc i" k' s1] rest by simp
      then show ?thesis
        using False Inr p rest k exec_stmt_reply(1) [of c s r s1 rs] by simp
    qed
  qed
qed

lemma run_from_cut:
  assumes "completed (fst (run_from refused i prog s)) < length prog"
  shows "\<exists>e. fst (run_from refused i prog s) =
           fst (run_from granted j (take (completed (fst (run_from refused i prog s))) prog) s)
             @ [Failed e]
         \<and> snd (run_from refused i prog s) =
           snd (run_from granted j (take (completed (fst (run_from refused i prog s))) prog) s)"
  using assms
proof (induction prog arbitrary: i j s)
  case Nil
  then show ?case by simp
next
  case (Cons c cs)
  show ?case
  proof (cases "refused i")
    case True
    then show ?thesis by simp
  next
    case False
    show ?thesis
    proof (cases "exec_stmt c s")
      case (Inl e)
      with False show ?thesis by simp
    next
      case (Inr p)
      obtain r s1 where p: "p = (r, s1)" by (cases p)
      obtain rs s2 where rest: "run_from refused (Suc i) cs s1 = (rs, s2)"
        by (cases "run_from refused (Suc i) cs s1")
      have cnt: "completed (r # rs) = Suc (completed rs)"
        using Inr p exec_stmt_reply(1) [of c s r s1 rs] by simp
      with Cons.prems False Inr p rest have "completed rs < length cs" by simp
      obtain rs0 s0 where cut: "run_from granted (Suc j) (take (completed rs) cs) s1 = (rs0, s0)"
        by (cases "run_from granted (Suc j) (take (completed rs) cs) s1")
      from \<open>completed rs < length cs\<close> obtain e where tl: "rs = rs0 @ [Failed e]" "s2 = s0"
        using Cons.IH [of "Suc i" s1 "Suc j"] rest cut by auto
      have "run_from granted j (c # take (completed rs) cs) s = (r # rs0, s0)"
        using Inr p cut not_granted [of j] by simp
      moreover have "run_from refused i (c # cs) s = (r # rs, s2)"
        using False Inr p rest by simp
      ultimately show ?thesis
        using cnt tl by simp
    qed
  qed
qed


lemma exec_stmt_answers: "exec_stmt c s = Inr (r, s1) \<Longrightarrow> answers c r"
  by (cases c) (auto split: prod.splits sum.splits)

lemma answers_run_from:
  "list_all2 answers
     (take (completed (fst (run_from refused i prog s))) prog)
     (take (completed (fst (run_from refused i prog s))) (fst (run_from refused i prog s)))"
proof (induction prog arbitrary: i s)
  case Nil
  show ?case by simp
next
  case (Cons c cs)
  show ?case
  proof (cases "refused i")
    case True
    then show ?thesis by simp
  next
    case False
    show ?thesis
    proof (cases "exec_stmt c s")
      case (Inl e)
      with False show ?thesis by simp
    next
      case (Inr p)
      obtain r s1 where p: "p = (r, s1)" by (cases p)
      obtain rs s2 where rest: "run_from refused (Suc i) cs s1 = (rs, s2)"
        by (cases "run_from refused (Suc i) cs s1")
      have res: "fst (run_from refused i (c # cs) s) = r # rs"
        using False Inr p rest by simp
      have cnt: "completed (r # rs) = Suc (completed rs)"
        using Inr p exec_stmt_reply(1) [of c s r s1 rs] by simp
      have "answers c r"
        using Inr p exec_stmt_answers [of c s r s1] by simp
      moreover have "list_all2 answers (take (completed rs) cs) (take (completed rs) rs)"
        using Cons.IH [of "Suc i" s1] rest by simp
      ultimately show ?thesis
        unfolding res cnt by simp
    qed
  qed
qed

lemma prefix_uses_take: "prefix (uses (take k prog)) (uses prog)"
proof (induction prog arbitrary: k)
  case Nil
  show ?case by simp
next
  case (Cons c cs)
  show ?case
  proof (cases k)
    case 0
    then show ?thesis by simp
  next
    case (Suc k')
    with Cons.IH [of k'] show ?thesis by (cases c) simp_all
  qed
qed


subsection \<open>The active database\<close>

lemma exec_stmt_active: "exec_stmt c s = Inr (r, s1) \<Longrightarrow> active s1 = last (active s # uses [c])"
  by (cases c) (auto simp: use_def dropUser_def createUser_def split: if_splits)

lemma last_uses_Cons: "last (last (a # uses [c]) # uses cs) = last (a # uses (c # cs))"
  by (cases c) simp_all

lemma active_run_from:
  "active (snd (run_from refused i prog s)) =
     last (active s # uses (take (completed (fst (run_from refused i prog s))) prog))"
proof (induction prog arbitrary: i s)
  case Nil
  show ?case by simp
next
  case (Cons c cs)
  show ?case
  proof (cases "refused i")
    case True
    then show ?thesis by simp
  next
    case False
    show ?thesis
    proof (cases "exec_stmt c s")
      case (Inl e)
      with False show ?thesis by simp
    next
      case (Inr p)
      obtain r s1 where p: "p = (r, s1)" by (cases p)
      obtain rs s2 where rest: "run_from refused (Suc i) cs s1 = (rs, s2)"
        by (cases "run_from refused (Suc i) cs s1")
      have res: "run_from refused i (c # cs) s = (r # rs, s2)"
        using False Inr p rest by simp
      have cnt: "completed (r # rs) = Suc (completed rs)"
        using Inr p exec_stmt_reply(1) [of c s r s1 rs] by simp
      have "active s2 = last (active s1 # uses (take (completed rs) cs))"
        using Cons.IH [of "Suc i" s1] rest by simp
      also have "active s1 = last (active s # uses [c])"
        using Inr p exec_stmt_active [of c s r s1] by simp
      also have "last (last (active s # uses [c]) # uses (take (completed rs) cs)) =
          last (active s # uses (c # take (completed rs) cs))"
        by (rule last_uses_Cons)
      finally have "active s2 = last (active s # uses (c # take (completed rs) cs))" .
      then show ?thesis
        by (simp only: res fst_conv snd_conv cnt take_Suc_Cons)
    qed
  qed
qed

lemma completed_take:
  "completed (fst (run_from refused i (take k prog) s)) =
     min k (completed (fst (run_from refused i prog s)))"
proof (induction prog arbitrary: i k s)
  case Nil
  show ?case by simp
next
  case (Cons c cs)
  show ?case
  proof (cases k)
    case 0
    then show ?thesis by simp
  next
    case (Suc k')
    show ?thesis
    proof (cases "refused i")
      case True
      with Suc show ?thesis by simp
    next
      case False
      show ?thesis
      proof (cases "exec_stmt c s")
        case (Inl e)
        with False Suc show ?thesis by simp
      next
        case (Inr p)
        obtain r s1 where p: "p = (r, s1)" by (cases p)
        obtain rs s2 where rest: "run_from refused (Suc i) cs s1 = (rs, s2)"
          by (cases "run_from refused (Suc i) cs s1")
        obtain rs' s2' where rest': "run_from refused (Suc i) (take k' cs) s1 = (rs', s2')"
          by (cases "run_from refused (Suc i) (take k' cs) s1")
        have "completed rs' = min k' (completed rs)"
          using Cons.IH [of "Suc i" k' s1] rest rest' by simp
        moreover have "completed (r # rs) = Suc (completed rs)"
          and "completed (r # rs') = Suc (completed rs')"
          using Inr p exec_stmt_reply(1) [of c s r s1] by simp_all
        ultimately show ?thesis
          using False Inr p rest rest' Suc by simp
      qed
    qed
  qed
qed

lemma active_setup_prefix:
  assumes "k \<le> 12"
  shows "active (snd (run granted (take k setupMongoDB) s)) =
    last (active s # uses (take k setupMongoDB))"
proof -
  have "completed (fst (run granted setupMongoDB s)) = 12"
    by (simp add: run_setup)
  then have "completed (fst (run granted (take k setupMongoDB) s)) = k"
    using assms completed_take [of granted 0 k setupMongoDB s] by (simp add: run_def)
  then show ?thesis
    using active_run_from [of granted 0 "take k setupMongoDB" s] by (simp add: run_def)
qed

lemma last_uses_setup:
  "map (\<lambda>k. last (a # uses (take k setupMongoDB))) [1, 2, 3, 4, 5, 6, 7, 8, 9, 10, 11, 12] =
       [''testRun'', ''testRun'', ''testRun'', ''test'', ''test'', ''test'',
        ''admin'', ''admin'', ''admin'', ''vcsshark'', ''vcsshark'', ''vcsshark'']"
  by (simp add: setupMongoDB_def)

lemma active_setup_prefixes:
  "map (\<lambda>k. active (snd (run granted (take k setupMongoDB) s))) [1, 2, 3, 4, 5, 6, 7, 8, 9, 10, 11, 12] =
       [''testRun'', ''testRun'', ''testRun'', ''test'', ''test'', ''test'',
        ''admin'', ''admin'', ''admin'', ''vcsshark'', ''vcsshark'', ''vcsshark'']"
proof -
  have "map (\<lambda>k. active (snd (run granted (take k setupMongoDB) s))) [1, 2, 3, 4, 5, 6, 7, 8, 9, 10, 11, 12] =
      map (\<lambda>k. last (active s # uses (take k setupMongoDB))) [1, 2, 3, 4, 5, 6, 7, 8, 9, 10, 11, 12]"
    by (rule list.map_cong0) (auto simp only: active_setup_prefix list.set insert_iff empty_iff)
  then show ?thesis
    by (simp only: last_uses_setup)
qed


section \<open>The claims\<close>

text \<open>
  C1. After the whole of \<^verbatim>\<open>setupMongoDB.js\<close> has run on a server without accounts,
  each of the databases testRun, test, admin and vcsshark has exactly one account, named
  root. Its grants are clusterAdmin on admin, readAnyDatabase on admin and readWrite on
  the database itself for testRun, test and vcsshark, and readWrite on config and
  clusterAdmin on admin for admin.
\<close>

theorem setup_on_fresh_server:
  "map name (users (snd (run granted setupMongoDB fresh)) ''testRun'') = [''root'']
   \<and> map grants (users (snd (run granted setupMongoDB fresh)) ''testRun'') =
       [[\<lparr>role = ''clusterAdmin'', db = ''admin''\<rparr>,
         \<lparr>role = ''readAnyDatabase'', db = ''admin''\<rparr>,
         \<lparr>role = ''readWrite'', db = ''testRun''\<rparr>]]
   \<and> map name (users (snd (run granted setupMongoDB fresh)) ''test'') = [''root'']
   \<and> map grants (users (snd (run granted setupMongoDB fresh)) ''test'') =
       [[\<lparr>role = ''clusterAdmin'', db = ''admin''\<rparr>,
         \<lparr>role = ''readAnyDatabase'', db = ''admin''\<rparr>,
         \<lparr>role = ''readWrite'', db = ''test''\<rparr>]]
   \<and> map name (users (snd (run granted setupMongoDB fresh)) ''admin'') = [''root'']
   \<and> map grants (users (snd (run granted setupMongoDB fresh)) ''admin'') =
       [[\<lparr>role = ''readWrite'', db = ''config''\<rparr>,
         \<lparr>role = ''clusterAdmin'', db = ''admin''\<rparr>]]
   \<and> map name (users (snd (run granted setupMongoDB fresh)) ''vcsshark'') = [''root'']
   \<and> map grants (users (snd (run granted setupMongoDB fresh)) ''vcsshark'') =
       [[\<lparr>role = ''clusterAdmin'', db = ''admin''\<rparr>,
         \<lparr>role = ''readAnyDatabase'', db = ''admin''\<rparr>,
         \<lparr>role = ''readWrite'', db = ''vcsshark''\<rparr>]]
   \<and> completed (fst (run granted setupMongoDB fresh)) = length setupMongoDB"
  by (simp add: script_defs shell_defs)

text \<open>
  C2. Running the whole of \<^verbatim>\<open>setupMongoDB.js\<close> a second time, on the session the
  first run left, ends in the same session as the first run, whatever the session the
  first run started in (a server without accounts included); the second run completes
  every statement.
\<close>

theorem setup_idempotent:
  "snd (run granted setupMongoDB (snd (run granted setupMongoDB s))) =
     snd (run granted setupMongoDB s)
   \<and> completed (fst (run granted setupMongoDB (snd (run granted setupMongoDB s)))) =
     length setupMongoDB"
proof
  show "snd (run granted setupMongoDB (snd (run granted setupMongoDB s))) =
     snd (run granted setupMongoDB s)"
    unfolding run_setup snd_conv
    by (rule session.equality)
       (simp_all add: active_provision more_provision users_provision name_new_account fun_eq_iff)
  show "completed (fst (run granted setupMongoDB (snd (run granted setupMongoDB s)))) =
     length setupMongoDB"
    unfolding run_setup fst_conv by (simp add: setupMongoDB_def)
qed

text \<open>
  C3. \<^verbatim>\<open>setupMongoDB.js\<close> is four blocks, one for each database: the \<^verbatim>\<open>use\<close>, then
  \<^verbatim>\<open>db.dropUser("root")\<close>, then the \<^verbatim>\<open>db.createUser\<close> of the account root, and a
  run answers in that order. The two are not one step: when the run ends between them,
  the \<^verbatim>\<open>createUser\<close> of a block being refused, the database of that block has no
  account root, whatever the session the run started in.
\<close>

theorem drop_precedes_create:
  "setupMongoDB =
     concat (map (\<lambda>(d, doc, c). [Use d, DropUser ''root'', CreateUser doc c])
       (provisions ''test'' setupMongoDB))
   \<and> map (\<lambda>(d, doc, c). (d, user doc)) (provisions ''test'' setupMongoDB) =
       [(''testRun'', ''root''), (''test'', ''root''), (''admin'', ''root''), (''vcsshark'', ''root'')]
   \<and> fst (run granted setupMongoDB s) =
       [Switched ''testRun'', Dropped (has_user s ''testRun'' ''root''), Added ''root'',
        Switched ''test'', Dropped (has_user s ''test'' ''root''), Added ''root'',
        Switched ''admin'', Dropped (has_user s ''admin'' ''root''), Added ''root'',
        Switched ''vcsshark'', Dropped (has_user s ''vcsshark'' ''root''), Added ''root'']
   \<and> fst (run (refuse_at 2) setupMongoDB s) =
       [Switched ''testRun'', Dropped (has_user s ''testRun'' ''root''), Failed Refused]
   \<and> \<not> has_user (snd (run (refuse_at 2) setupMongoDB s)) ''testRun'' ''root''
   \<and> \<not> has_user (snd (run (refuse_at 5) setupMongoDB s)) ''test'' ''root''
   \<and> \<not> has_user (snd (run (refuse_at 8) setupMongoDB s)) ''admin'' ''root''
   \<and> \<not> has_user (snd (run (refuse_at 11) setupMongoDB s)) ''vcsshark'' ''root''"
proof -
  have blk: "\<not> refuse_at k i \<Longrightarrow> \<not> refuse_at k (Suc i) \<Longrightarrow> \<not> refuse_at k (Suc (Suc i)) \<Longrightarrow>
      run_from (refuse_at k) i (Use d # DropUser ''root'' # CreateUser \<lparr>user = ''root'', pwd = p, roles = r\<rparr> c # cs) s =
     (case run_from (refuse_at k) (Suc (Suc (Suc i))) cs (provision d \<lparr>user = ''root'', pwd = p, roles = r\<rparr> s) of
        (rs, s') \<Rightarrow> (Switched d # Dropped (has_user s d ''root'') # Added ''root'' # rs, s'))"
    for k i d p r c cs s
    using run_from_block [where refused = "refuse_at k" and i = i and doc = "\<lparr>user = ''root'', pwd = p, roles = r\<rparr>"]
    by simp
  have stp: "\<not> refuse_at k i \<Longrightarrow> \<not> refuse_at k (Suc i) \<Longrightarrow> refuse_at k (Suc (Suc i)) \<Longrightarrow>
     run_from (refuse_at k) i (Use d # DropUser n # c # cs) s =
       ([Switched d, Dropped (has_user s d n), Failed Refused], dropped d n s)"
    for k i d n c cs s
    by (rule run_from_stop)
  have a: "setupMongoDB =
     concat (map (\<lambda>(d, doc, c). [Use d, DropUser ''root'', CreateUser doc c])
       (provisions ''test'' setupMongoDB))"
    by (simp add: script_defs)
  have b: "map (\<lambda>(d, doc, c). (d, user doc)) (provisions ''test'' setupMongoDB) =
       [(''testRun'', ''root''), (''test'', ''root''), (''admin'', ''root''), (''vcsshark'', ''root'')]"
    by (simp add: script_defs)
  have full: "fst (run granted setupMongoDB s) =
       [Switched ''testRun'', Dropped (has_user s ''testRun'' ''root''), Added ''root'',
        Switched ''test'', Dropped (has_user s ''test'' ''root''), Added ''root'',
        Switched ''admin'', Dropped (has_user s ''admin'' ''root''), Added ''root'',
        Switched ''vcsshark'', Dropped (has_user s ''vcsshark'' ''root''), Added ''root'']"
    by (simp add: run_setup)
  have c: "fst (run (refuse_at 2) setupMongoDB s) =
       [Switched ''testRun'', Dropped (has_user s ''testRun'' ''root''), Failed Refused]"
    unfolding run_def setupMongoDB_def
    by (simp add: stp refuse_at_def del: run_from.simps(2))
  have d1: "\<not> has_user (snd (run (refuse_at 2) setupMongoDB s)) ''testRun'' ''root''"
    unfolding run_def setupMongoDB_def
    by (simp add: stp refuse_at_def has_user_dropped del: run_from.simps(2))
  have d2: "\<not> has_user (snd (run (refuse_at 5) setupMongoDB s)) ''test'' ''root''"
    unfolding run_def setupMongoDB_def
    by (simp add: blk stp refuse_at_def has_user_dropped split: prod.splits del: run_from.simps(2))
  have d3: "\<not> has_user (snd (run (refuse_at 8) setupMongoDB s)) ''admin'' ''root''"
    unfolding run_def setupMongoDB_def
    by (simp add: blk stp refuse_at_def has_user_dropped split: prod.splits del: run_from.simps(2))
  have d4: "\<not> has_user (snd (run (refuse_at 11) setupMongoDB s)) ''vcsshark'' ''root''"
    unfolding run_def setupMongoDB_def
    by (simp add: blk stp refuse_at_def has_user_dropped split: prod.splits del: run_from.simps(2))
  from a b full c d1 d2 d3 d4 show ?thesis by blast
qed

text \<open>
  C4. \<^verbatim>\<open>db.dropUser\<close> of a name that has no account in the active database answers
  false and changes nothing, and the run goes on with the next statement. Any failure
  ends the run: a statement refused at position \<open>k\<close> lets at most the \<open>k\<close> statements
  before it complete, and a run that completed fewer statements than the script has
  ends with the failure and leaves the session that exactly the completed statements
  produce; nothing after the failure is executed, retried or undone.
\<close>

theorem failure_ends_run:
  "(\<not> has_user s (active s) n \<longrightarrow> exec_stmt (DropUser n) s = Inr (Dropped False, s))
   \<and> (\<not> has_user s (active s) n \<and> \<not> refused 0 \<longrightarrow>
        run refused (DropUser n # cs) s =
          (Dropped False # fst (run_from refused 1 cs s), snd (run_from refused 1 cs s)))
   \<and> (k < length prog \<and> refused k \<longrightarrow> completed (fst (run refused prog s)) \<le> k)
   \<and> (completed (fst (run refused prog s)) < length prog \<longrightarrow>
        (\<exists>e. fst (run refused prog s) =
              fst (run granted (take (completed (fst (run refused prog s))) prog) s) @ [Failed e])
        \<and> snd (run refused prog s) =
            snd (run granted (take (completed (fst (run refused prog s))) prog) s))"
proof -
  have keep: "s\<lparr>users := (users s)(active s := filter (\<lambda>a. name a \<noteq> n) (users s (active s)))\<rparr> = s"
    if "\<not> has_user s (active s) n"
  proof -
    have "filter (\<lambda>a. name a \<noteq> n) (users s (active s)) = users s (active s)"
      using that by (auto simp: has_user_def filter_id_conv)
    then show ?thesis by simp
  qed
  have a: "exec_stmt (DropUser n) s = Inr (Dropped False, s)" if "\<not> has_user s (active s) n"
    using that keep by (simp add: dropUser_def)
  have b: "run refused (DropUser n # cs) s =
          (Dropped False # fst (run_from refused 1 cs s), snd (run_from refused 1 cs s))"
    if "\<not> has_user s (active s) n" "\<not> refused 0"
    using that a by (simp add: run_def split: prod.splits)
  have c: "completed (fst (run refused prog s)) \<le> k" if "refused k"
    using that completed_le_refusal [of refused 0 k prog s] by (simp add: run_def)
  have d: "(\<exists>e. fst (run refused prog s) =
              fst (run granted (take (completed (fst (run refused prog s))) prog) s) @ [Failed e])
        \<and> snd (run refused prog s) =
            snd (run granted (take (completed (fst (run refused prog s))) prog) s)"
    if "completed (fst (run refused prog s)) < length prog"
    using that run_from_cut [of refused 0 prog s 0] unfolding run_def by blast
  from a b c d show ?thesis by blast
qed

theorem failure_ends_run_witness:
  "exec_stmt (DropUser ''root'') fresh = Inr (Dropped False, fresh)
   \<and> fst (run (refuse_at 2) setupMongoDB fresh) = [Switched ''testRun'', Dropped False, Failed Refused]
   \<and> completed (fst (run (refuse_at 2) setupMongoDB fresh)) = 2
   \<and> snd (run (refuse_at 2) setupMongoDB fresh) = snd (run granted (take 2 setupMongoDB) fresh)
   \<and> snd (run (refuse_at 2) setupMongoDB fresh) = \<lparr>active = ''testRun'', users = (\<lambda>d. [])\<rparr>"
proof -
  have h: "\<not> has_user fresh (active fresh) ''root''"
    by (simp add: has_user_def fresh_def)
  have r: "run (refuse_at 2) setupMongoDB fresh = ([Switched ''testRun'', Dropped False, Failed Refused], dropped ''testRun'' ''root'' fresh)"
    unfolding run_def setupMongoDB_def
    by (simp add: run_from_stop refuse_at_def has_user_def fresh_def del: run_from.simps(2))
  have k: "completed (fst (run (refuse_at 2) setupMongoDB fresh)) < length setupMongoDB"
    unfolding r by (simp add: setupMongoDB_def)
  have cnt: "completed (fst (run (refuse_at 2) setupMongoDB fresh)) = 2"
    unfolding r by simp
  have "snd (run (refuse_at 2) setupMongoDB fresh) =
      snd (run granted (take (completed (fst (run (refuse_at 2) setupMongoDB fresh))) setupMongoDB) fresh)"
    using failure_ends_run [of fresh "''root''" "refuse_at 2" "[]" 2 setupMongoDB] k by blast
  then have "snd (run (refuse_at 2) setupMongoDB fresh) = snd (run granted (take 2 setupMongoDB) fresh)"
    unfolding cnt .
  moreover have "exec_stmt (DropUser ''root'') fresh = Inr (Dropped False, fresh)"
    using failure_ends_run [of fresh "''root''" "refuse_at 2" "[]" 2 setupMongoDB] h by blast
  moreover have "dropped ''testRun'' ''root'' fresh = \<lparr>active = ''testRun'', users = (\<lambda>d. [])\<rparr>"
    by (simp add: dropped_def fresh_def fun_eq_iff)
  ultimately show ?thesis
    using cnt unfolding r by simp
qed

text \<open>
  C5, as stated, fails: that the four databases are activated whatever the outcome of a
  statement. On a server without accounts, with the \<^verbatim>\<open>createUser\<close> of the first block
  refused, the run ends there: only testRun has been activated, and the active database
  at the end is testRun, not vcsshark.
\<close>

theorem contexts_all_four_counterexample:
  "fst (run (refuse_at 2) setupMongoDB fresh) =
     [Switched ''testRun'', Dropped False, Failed Refused]
   \<and> switches (fst (run (refuse_at 2) setupMongoDB fresh)) = [''testRun'']
   \<and> switches (fst (run (refuse_at 2) setupMongoDB fresh)) \<noteq>
       [''testRun'', ''test'', ''admin'', ''vcsshark'']
   \<and> active (snd (run (refuse_at 2) setupMongoDB fresh)) = ''testRun''
   \<and> active (snd (run (refuse_at 2) setupMongoDB fresh)) \<noteq> ''vcsshark''"
proof -
  have "run (refuse_at 2) setupMongoDB fresh =
      ([Switched ''testRun'', Dropped False, Failed Refused], dropped ''testRun'' ''root'' fresh)"
    unfolding run_def setupMongoDB_def
    by (simp add: run_from_stop refuse_at_def has_user_def fresh_def del: run_from.simps(2))
  then show ?thesis
    by (simp add: dropped_def)
qed

text \<open>
  C5, amended. \<^verbatim>\<open>setupMongoDB.js\<close> is a straight line of statements whose \<^verbatim>\<open>use\<close>
  statements are testRun, test, admin and vcsshark, in this order. Whatever is refused
  and whatever session the run starts in, the statements completed are an initial
  segment of the script, answered one by one in source order; the databases activated
  are those of the \<^verbatim>\<open>use\<close> statements of that segment, hence an initial segment of the
  four, and the active database at the end is the last of them. When nothing is
  refused the run activates all four, whatever the starting session and so whatever
  \<^verbatim>\<open>db.dropUser\<close> answers: after each of the twelve statements the active database is
  that of the nearest \<^verbatim>\<open>use\<close> before it.
\<close>

theorem contexts_follow_source:
  "uses setupMongoDB = [''testRun'', ''test'', ''admin'', ''vcsshark'']
   \<and> list_all2 answers
       (take (completed (fst (run refused setupMongoDB s))) setupMongoDB)
       (take (completed (fst (run refused setupMongoDB s))) (fst (run refused setupMongoDB s)))
   \<and> switches (fst (run refused setupMongoDB s)) =
       uses (take (completed (fst (run refused setupMongoDB s))) setupMongoDB)
   \<and> prefix (switches (fst (run refused setupMongoDB s))) [''testRun'', ''test'', ''admin'', ''vcsshark'']
   \<and> active (snd (run refused setupMongoDB s)) =
       last (active s # switches (fst (run refused setupMongoDB s)))
   \<and> completed (fst (run granted setupMongoDB s)) = length setupMongoDB
   \<and> switches (fst (run granted setupMongoDB s)) = [''testRun'', ''test'', ''admin'', ''vcsshark'']
   \<and> map (\<lambda>k. active (snd (run granted (take k setupMongoDB) s))) [1, 2, 3, 4, 5, 6, 7, 8, 9, 10, 11, 12] =
       [''testRun'', ''testRun'', ''testRun'', ''test'', ''test'', ''test'',
        ''admin'', ''admin'', ''admin'', ''vcsshark'', ''vcsshark'', ''vcsshark'']"
proof -
  have u: "uses setupMongoDB = [''testRun'', ''test'', ''admin'', ''vcsshark'']"
    by (simp add: setupMongoDB_def)
  have an: "list_all2 answers
       (take (completed (fst (run refused setupMongoDB s))) setupMongoDB)
       (take (completed (fst (run refused setupMongoDB s))) (fst (run refused setupMongoDB s)))"
    unfolding run_def by (rule answers_run_from)
  have sw: "switches (fst (run refused setupMongoDB s)) =
       uses (take (completed (fst (run refused setupMongoDB s))) setupMongoDB)"
    unfolding run_def by (rule switches_run_from)
  have "prefix (uses (take (completed (fst (run refused setupMongoDB s))) setupMongoDB))
      (uses setupMongoDB)"
    by (rule prefix_uses_take)
  then have p: "prefix (switches (fst (run refused setupMongoDB s))) [''testRun'', ''test'', ''admin'', ''vcsshark'']"
    unfolding sw u [symmetric] .
  have ac: "active (snd (run refused setupMongoDB s)) =
       last (active s # switches (fst (run refused setupMongoDB s)))"
    by (simp only: run_def switches_run_from active_run_from)
  have n: "completed (fst (run granted setupMongoDB s)) = length setupMongoDB"
    unfolding run_setup fst_conv by (simp add: setupMongoDB_def)
  have f: "switches (fst (run granted setupMongoDB s)) = [''testRun'', ''test'', ''admin'', ''vcsshark'']"
    by (simp add: run_setup)
  have m: "map (\<lambda>k. active (snd (run granted (take k setupMongoDB) s))) [1, 2, 3, 4, 5, 6, 7, 8, 9, 10, 11, 12] =
       [''testRun'', ''testRun'', ''testRun'', ''test'', ''test'', ''test'',
        ''admin'', ''admin'', ''admin'', ''vcsshark'', ''vcsshark'', ''vcsshark'']"
    by (rule active_setup_prefixes)
  from u an sw p ac n f m show ?thesis by blast
qed

text \<open>
  C6. In every \<^verbatim>\<open>db.createUser\<close> call of the two scripts the account name is not
  empty and the role array is not empty, and in every role object of the array neither
  the role name nor the database is empty.
\<close>

theorem entries_well_formed:
  "\<forall>(d, doc, c) \<in> set (provisions ''test'' setupMongoDB @ provisions ''test'' part_000).
      user doc \<noteq> [] \<and> roles doc \<noteq> []
      \<and> (\<forall>e \<in> set (roles doc).
            case e of RoleName r \<Rightarrow> True | RoleDoc g \<Rightarrow> role g \<noteq> [] \<and> db g \<noteq> [])"
  by (simp add: script_defs)

theorem entries_well_formed_witness:
  "(''admin'', \<lparr>user = ''root'', pwd = ''balla1234$'', roles = admin_roles\<rparr>, None)
      \<in> set (provisions ''test'' setupMongoDB @ provisions ''test'' part_000)
   \<and> RoleDoc \<lparr>role = ''readWrite'', db = ''config''\<rparr> \<in> set admin_roles
   \<and> user \<lparr>user = ''root'', pwd = ''balla1234$'', roles = admin_roles\<rparr> \<noteq> []
   \<and> admin_roles \<noteq> []
   \<and> role \<lparr>role = ''readWrite'', db = ''config''\<rparr> \<noteq> []
   \<and> db \<lparr>role = ''readWrite'', db = ''config''\<rparr> \<noteq> []"
proof -
  have m: "(''admin'', \<lparr>user = ''root'', pwd = ''balla1234$'', roles = admin_roles\<rparr>, None)
      \<in> set (provisions ''test'' setupMongoDB @ provisions ''test'' part_000)"
    by (simp add: setupMongoDB_def part_000_def)
  have e: "RoleDoc \<lparr>role = ''readWrite'', db = ''config''\<rparr> \<in> set admin_roles"
    by (simp add: admin_roles_def)
  from entries_well_formed m
  have w: "user \<lparr>user = ''root'', pwd = ''balla1234$'', roles = admin_roles\<rparr> \<noteq> []
      \<and> roles \<lparr>user = ''root'', pwd = ''balla1234$'', roles = admin_roles\<rparr> \<noteq> []
      \<and> (\<forall>e \<in> set (roles \<lparr>user = ''root'', pwd = ''balla1234$'', roles = admin_roles\<rparr>).
            case e of RoleName r \<Rightarrow> True | RoleDoc g \<Rightarrow> role g \<noteq> [] \<and> db g \<noteq> [])"
    by fast
  then have "case RoleDoc \<lparr>role = ''readWrite'', db = ''config''\<rparr> of
        RoleName r \<Rightarrow> True | RoleDoc g \<Rightarrow> role g \<noteq> [] \<and> db g \<noteq> []"
    using e by simp
  with m e w show ?thesis by simp
qed

text \<open>
  C7. Every write-concern object that a \<^verbatim>\<open>db.createUser\<close> call of the scripts passes
  has a \<^verbatim>\<open>wtimeout\<close> that is not negative: it is 5000, with \<^verbatim>\<open>w\<close> being "majority".
\<close>

theorem wtimeout_non_negative:
  "\<forall>c \<in> set (write_concerns setupMongoDB @ write_concerns part_000).
      0 \<le> wtimeout c \<and> wtimeout c = 5000 \<and> w c = ''majority''"
  by (simp add: script_defs)

theorem wtimeout_non_negative_witness:
  "write_concerns setupMongoDB = [majority, majority, majority]
   \<and> 0 \<le> wtimeout majority \<and> wtimeout majority = 5000 \<and> w majority = ''majority''"
proof -
  have l: "write_concerns setupMongoDB = [majority, majority, majority]"
    by (simp add: setupMongoDB_def)
  then have "majority \<in> set (write_concerns setupMongoDB @ write_concerns part_000)"
    by simp
  with wtimeout_non_negative
  have "0 \<le> wtimeout majority \<and> wtimeout majority = 5000 \<and> w majority = ''majority''"
    by (rule bspec)
  with l show ?thesis by simp
qed

text \<open>
  C8. The passwords are not the same on the four databases: \<^verbatim>\<open>setupMongoDB.js\<close>
  creates root with the password "balla1234$" on testRun and on admin and with the
  password "root" on test and on vcsshark, and after a run these are the passwords of
  the accounts root there.
\<close>

theorem passwords_differ:
  "map (\<lambda>(d, doc, c). (d, user doc, pwd doc)) (provisions ''test'' setupMongoDB) =
     [(''testRun'', ''root'', ''balla1234$''), (''test'', ''root'', ''root''),
      (''admin'', ''root'', ''balla1234$''), (''vcsshark'', ''root'', ''root'')]
   \<and> map (\<lambda>a. (name a, password a)) (users (snd (run granted setupMongoDB s)) ''testRun'') =
       map (\<lambda>a. (name a, password a)) (filter (\<lambda>a. name a \<noteq> ''root'') (users s ''testRun''))
         @ [(''root'', ''balla1234$'')]
   \<and> map (\<lambda>a. (name a, password a)) (users (snd (run granted setupMongoDB s)) ''test'') =
       map (\<lambda>a. (name a, password a)) (filter (\<lambda>a. name a \<noteq> ''root'') (users s ''test''))
         @ [(''root'', ''root'')]
   \<and> map (\<lambda>a. (name a, password a)) (users (snd (run granted setupMongoDB s)) ''admin'') =
       map (\<lambda>a. (name a, password a)) (filter (\<lambda>a. name a \<noteq> ''root'') (users s ''admin''))
         @ [(''root'', ''balla1234$'')]
   \<and> map (\<lambda>a. (name a, password a)) (users (snd (run granted setupMongoDB s)) ''vcsshark'') =
       map (\<lambda>a. (name a, password a)) (filter (\<lambda>a. name a \<noteq> ''root'') (users s ''vcsshark''))
         @ [(''root'', ''root'')]
   \<and> ''balla1234$'' \<noteq> ''root''"
  by (simp add: run_setup users_provision new_account_def) (simp add: script_defs)

text \<open>
  C9. The \<^verbatim>\<open>db.createUser\<close> calls for testRun, test and vcsshark pass the write
  concern \<^verbatim>\<open>{ w: "majority" , wtimeout: 5000 }\<close>; the one for admin passes none, and
  it is the only one.
\<close>

theorem write_concern_omitted_once:
  "map (\<lambda>(d, doc, c). (d, c)) (provisions ''test'' setupMongoDB) =
     [(''testRun'', Some \<lparr>w = ''majority'', wtimeout = 5000\<rparr>),
      (''test'', Some \<lparr>w = ''majority'', wtimeout = 5000\<rparr>),
      (''admin'', None),
      (''vcsshark'', Some \<lparr>w = ''majority'', wtimeout = 5000\<rparr>)]
   \<and> length (filter (\<lambda>(d, doc, c). c = None) (provisions ''test'' setupMongoDB)) = 1"
  by (simp add: script_defs)


end
